theory Spec2Isabelle
  imports Complex_Main "HOL-Library.Multiset"
begin

section \<open>Size Formatter\<close>

text \<open>
  \<^verbatim>\<open>formatSize\<close> of the server, on byte counts. A JavaScript number is a binary double; a
  byte count is a non-negative integer a double holds exactly (every integer up to
  \<open>2^53\<close> is one), and on those every division by 1024 is exact (it only changes the
  exponent), so the intermediate value is the exact quotient and is modelled as a
  \<open>real\<close>. For a value below \<open>10^21\<close>, \<^verbatim>\<open>toFixed(1)\<close> picks the integer \<open>n\<close> with \<open>n / 10\<close>
  closest to the exact value, the larger one on a tie (\<open>n = \<lfloor>10 x + 1/2\<rfloor>\<close>), and prints
  \<open>n\<close> in decimal with a point before the last digit. From \<open>10^21\<close> on it returns the
  number in exponent notation, whose digits are not modelled: the result is \<open>None\<close>.
  The worker also formats the quotient of the image size by the number of layers, which
  need not be an integer: that call is outside this model.
\<close>

definition units :: "string list" where
  "units = [''B'', ''KB'', ''MB'', ''GB'']"

function formatSize_loop :: "real \<Rightarrow> nat \<Rightarrow> real \<times> nat" where
  "formatSize_loop formattedSize unitIndex =
     (if formattedSize \<ge> 1024 \<and> unitIndex < length units - 1
      then formatSize_loop (formattedSize / 1024) (unitIndex + 1)
      else (formattedSize, unitIndex))"
  by pat_completeness auto
termination
  by (relation "measure (\<lambda>(s, i). length units - 1 - i)") auto

declare formatSize_loop.simps [simp del]

definition digit_char :: "nat \<Rightarrow> char" where
  "digit_char d = ''0123456789'' ! d"

function show_nat :: "nat \<Rightarrow> string" where
  "show_nat n =
     (if n < 10 then [digit_char n] else show_nat (n div 10) @ [digit_char (n mod 10)])"
  by pat_completeness auto
termination
  by (relation "measure id") auto

declare show_nat.simps [simp del]

definition round_tenths :: "real \<Rightarrow> nat" where
  "round_tenths x = nat \<lfloor>x * 10 + 1 / 2\<rfloor>"

definition toFixed1 :: "real \<Rightarrow> string option" where
  "toFixed1 x =
     (if x < 10 ^ 21
      then (let n = round_tenths x in Some (show_nat (n div 10) @ ''.'' @ show_nat (n mod 10)))
      else None)"

definition formatSize :: "nat \<Rightarrow> string option" where
  "formatSize size' = (case formatSize_loop (of_nat size') 0 of
      (formattedSize, unitIndex) \<Rightarrow>
        map_option (\<lambda>s. s @ units ! unitIndex) (toFixed1 formattedSize))"

text \<open>The number of divisions the loop performs, read off the thresholds.\<close>

definition unit_index_of :: "nat \<Rightarrow> nat" where
  "unit_index_of n = (if n < 1024 then 0 else if n < 1024 * 1024 then 1
                      else if n < 1024 * 1024 * 1024 then 2 else 3)"

text \<open>Reading a decimal numeral back, to say what \<open>show_nat\<close> prints.\<close>

definition digit_value :: "char \<Rightarrow> nat" where
  "digit_value c = (case map_of (zip ''0123456789'' [0, 1, 2, 3, 4, 5, 6, 7, 8, 9]) c of
                      None \<Rightarrow> 0 | Some d \<Rightarrow> d)"

definition read_nat :: "string \<Rightarrow> nat" where
  "read_nat s = foldl (\<lambda>a c. 10 * a + digit_value c) 0 s"

lemma formatSize_loop_stop:
  "\<not> (x \<ge> 1024 \<and> i < 3) \<Longrightarrow> formatSize_loop x i = (x, i)"
  by (subst formatSize_loop.simps) (auto simp: units_def)

lemma formatSize_loop_step:
  "x \<ge> 1024 \<Longrightarrow> i < 3 \<Longrightarrow> formatSize_loop x i = formatSize_loop (x / 1024) (Suc i)"
  by (subst formatSize_loop.simps) (simp add: units_def)

lemma formatSize_loop_closed:
  "formatSize_loop (of_nat n) 0 = (of_nat n / 1024 ^ unit_index_of n, unit_index_of n)"
proof -
  let ?x = "of_nat n :: real"
  consider (b) "n < 1024" | (k) "1024 \<le> n" "n < 1024 * 1024"
    | (m) "1024 * 1024 \<le> n" "n < 1024 * 1024 * 1024" | (g) "1024 * 1024 * 1024 \<le> n"
    by linarith
  then show ?thesis
  proof cases
    case b
    then have "?x < 1024" by simp
    with b show ?thesis by (simp add: formatSize_loop_stop unit_index_of_def)
  next
    case k
    have 1: "?x \<ge> 1024" using k(1) by simp
    have "?x < of_nat (1024 * 1024)" using k(2) by (simp only: of_nat_less_iff)
    then have 2: "?x / 1024 < 1024" by simp
    have e: "formatSize_loop ?x 0 = (?x / 1024, 1)"
      using 1 2 by (simp add: formatSize_loop_step formatSize_loop_stop)
    show ?thesis using k by (simp add: e unit_index_of_def)
  next
    case m
    have "?x \<ge> of_nat (1024 * 1024)" using m(1) by (simp only: of_nat_le_iff)
    then have 1: "?x \<ge> 1024" "?x / 1024 \<ge> 1024" by simp_all
    have "?x < of_nat (1024 * 1024 * 1024)" using m(2) by (simp only: of_nat_less_iff)
    then have 2: "?x / 1024 / 1024 < 1024" by simp
    have e: "formatSize_loop ?x 0 = (?x / 1024 / 1024, 2)"
      using 1 2 by (simp add: formatSize_loop_step formatSize_loop_stop numeral_2_eq_2)
    show ?thesis using m by (simp add: e unit_index_of_def)
  next
    case g
    have "?x \<ge> of_nat (1024 * 1024 * 1024)" using g by (simp only: of_nat_le_iff)
    then have 1: "?x \<ge> 1024" "?x / 1024 \<ge> 1024" "?x / 1024 / 1024 \<ge> 1024" by simp_all
    have e: "formatSize_loop ?x 0 = (?x / 1024 / 1024 / 1024, 3)"
      using 1 by (simp add: formatSize_loop_step formatSize_loop_stop numeral_3_eq_3)
    show ?thesis using g by (simp add: e unit_index_of_def)
  qed
qed


lemma round_tenths_bounds:
  assumes "0 \<le> x"
  shows "real (round_tenths x) \<le> 10 * x + 1 / 2 \<and> 10 * x + 1 / 2 < real (round_tenths x) + 1"
proof -
  define f where "f = \<lfloor>x * 10 + 1 / 2\<rfloor>"
  have nn: "0 \<le> f" using assms by (simp add: f_def)
  then have e: "real (round_tenths x) = of_int f"
    by (simp add: round_tenths_def f_def)
  have "of_int f \<le> x * 10 + 1 / 2" "x * 10 + 1 / 2 < of_int f + 1"
    unfolding f_def by linarith+
  then show ?thesis unfolding e by linarith
qed

lemma round_tenths_close:
  assumes "0 \<le> x"
  shows "\<bar>real (round_tenths x) / 10 - x\<bar> \<le> 1 / 20"
  using round_tenths_bounds [OF assms] by linarith

lemma show_nat_digit: "n < 10 \<Longrightarrow> show_nat n = [digit_char n]"
  by (subst show_nat.simps) simp

lemma show_nat_step:
  "10 \<le> n \<Longrightarrow> show_nat n = show_nat (n div 10) @ [digit_char (n mod 10)]"
  by (subst show_nat.simps) simp

lemma digit_value_digit_char: "d < 10 \<Longrightarrow> digit_value (digit_char d) = d"
proof -
  assume "d < 10"
  then have "d \<in> {0, 1, 2, 3, 4, 5, 6, 7, 8, 9}" by auto
  then show ?thesis
    by (auto simp: digit_value_def digit_char_def)
qed

lemma read_nat_snoc: "read_nat (s @ [c]) = 10 * read_nat s + digit_value c"
  by (simp add: read_nat_def)

lemma read_nat_show_nat: "read_nat (show_nat n) = n"
proof (induction n rule: show_nat.induct)
  case (1 n)
  show ?case
  proof (cases "n < 10")
    case True
    then show ?thesis
      by (simp add: show_nat_digit digit_value_digit_char read_nat_def)
  next
    case False
    then have "read_nat (show_nat (n div 10)) = n div 10" using "1" by simp
    with False show ?thesis
      by (simp add: show_nat_step read_nat_snoc digit_value_digit_char)
  qed
qed

lemma formatSize_closed:
  "formatSize n = map_option (\<lambda>s. s @ units ! unit_index_of n)
                    (toFixed1 (real n / 1024 ^ unit_index_of n))"
  by (simp add: formatSize_def formatSize_loop_closed)

lemma unit_index_of_exit:
  "unit_index_of n \<le> 3
   \<and> (unit_index_of n = 3 \<or> real n / 1024 ^ unit_index_of n < 1024)
   \<and> (unit_index_of n = 0 \<or> 1 \<le> real n / 1024 ^ unit_index_of n)"
proof -
  consider (b) "n < 1024" | (k) "1024 \<le> n" "n < 1024 * 1024"
    | (m) "1024 * 1024 \<le> n" "n < 1024 * 1024 * 1024" | (g) "1024 * 1024 * 1024 \<le> n"
    by linarith
  then show ?thesis
  proof cases
    case b
    then have "real n < 1024" by simp
    with b show ?thesis by (simp add: unit_index_of_def)
  next
    case k
    have "real n < real (1024 * 1024)" "real 1024 \<le> real n"
      using k by (simp_all only: of_nat_less_iff of_nat_le_iff)
    with k show ?thesis by (simp add: unit_index_of_def)
  next
    case m
    have "real n < real (1024 * 1024 * 1024)" "real (1024 * 1024) \<le> real n"
      using m by (simp_all only: of_nat_less_iff of_nat_le_iff)
    with m show ?thesis by (simp add: unit_index_of_def)
  next
    case g
    have "real (1024 * 1024 * 1024) \<le> real n"
      using g by (simp only: of_nat_le_iff)
    with g show ?thesis by (simp add: unit_index_of_def)
  qed
qed

lemma quotient_below_limit:
  assumes "n \<le> 2 ^ 53"
  shows "real n / 1024 ^ unit_index_of n < 10 ^ 21"
proof -
  have "real n \<le> real (2 ^ 53)" using assms by (simp only: of_nat_le_iff)
  then have "real n < 10 ^ 21" by simp
  moreover have "(1::real) \<le> 1024 ^ unit_index_of n" by simp
  then have "real n * 1 \<le> real n * 1024 ^ unit_index_of n"
    by (intro mult_left_mono) simp_all
  then have "real n / 1024 ^ unit_index_of n \<le> real n"
    by (simp add: field_simps)
  ultimately show ?thesis by linarith
qed

lemmas formatSize_eval =
  formatSize_closed unit_index_of_def units_def toFixed1_def
  round_tenths_def show_nat_step show_nat_digit digit_char_def

lemma formatSize_0: "formatSize 0 = Some ''0.0B''"
  by (simp add: formatSize_eval)

lemma formatSize_exponent: "formatSize (2 ^ 100) = None"
  by (simp add: formatSize_closed unit_index_of_def toFixed1_def)

text \<open>
  C5. For every byte count \<open>n\<close> up to \<open>2^53\<close> the formatter divides by 1024 as long as the
  value is at least 1024 and a larger unit remains (\<open>k\<close> divisions: at most three, the
  value below 1024 unless GB is reached, and at least 1 after a division), and prints
  the quotient rounded to one decimal place, half up (the integer \<open>m\<close> of tenths with
  \<open>m \<le> 10 q + 1/2 < m + 1\<close>, in decimal, a point before its last digit), followed by the
  unit. 1023 stays in B; 1024 is \<^verbatim>\<open>1.0KB\<close>; 1048576 is \<^verbatim>\<open>1.0MB\<close>; 1536 is \<^verbatim>\<open>1.5KB\<close>; 1280
  (1.25) is \<^verbatim>\<open>1.3KB\<close>; 1999 is \<^verbatim>\<open>2.0KB\<close>; 1075 and 1076 print \<^verbatim>\<open>1.0KB\<close> and \<^verbatim>\<open>1.1KB\<close>;
  \<open>1024^4\<close> stays in GB.
\<close>

theorem formatSize_spec:
  "(n \<le> 2 ^ 53 \<longrightarrow>
      (let k = unit_index_of n; q = real n / 1024 ^ k; m = round_tenths q in
         formatSize n = Some (show_nat (m div 10) @ ''.'' @ show_nat (m mod 10) @ units ! k)
         \<and> k \<le> 3 \<and> (k = 3 \<or> q < 1024) \<and> (k = 0 \<or> 1 \<le> q)
         \<and> real m \<le> 10 * q + 1 / 2 \<and> 10 * q + 1 / 2 < real m + 1
         \<and> \<bar>real m / 10 - q\<bar> \<le> 1 / 20))
   \<and> (\<forall>x. read_nat (show_nat x) = x)
   \<and> units = [''B'', ''KB'', ''MB'', ''GB'']
   \<and> formatSize 1023 = Some ''1023.0B''
   \<and> formatSize 1024 = Some ''1.0KB''
   \<and> formatSize 1048576 = Some ''1.0MB''
   \<and> formatSize 1536 = Some ''1.5KB''
   \<and> formatSize 1280 = Some ''1.3KB''
   \<and> formatSize 1999 = Some ''2.0KB''
   \<and> formatSize 1075 = Some ''1.0KB''
   \<and> formatSize 1076 = Some ''1.1KB''
   \<and> formatSize 1099511627776 = Some ''1024.0GB''"
proof -
  have 1: "n \<le> 2 ^ 53 \<longrightarrow>
      (let k = unit_index_of n; q = real n / 1024 ^ k; m = round_tenths q in
         formatSize n = Some (show_nat (m div 10) @ ''.'' @ show_nat (m mod 10) @ units ! k)
         \<and> k \<le> 3 \<and> (k = 3 \<or> q < 1024) \<and> (k = 0 \<or> 1 \<le> q)
         \<and> real m \<le> 10 * q + 1 / 2 \<and> 10 * q + 1 / 2 < real m + 1
         \<and> \<bar>real m / 10 - q\<bar> \<le> 1 / 20)"
  proof
    assume b: "n \<le> 2 ^ 53"
    let ?k = "unit_index_of n"
    let ?q = "real n / 1024 ^ ?k"
    have q0: "0 \<le> ?q" by simp
    have f: "formatSize n = Some (show_nat (round_tenths ?q div 10) @ ''.''
               @ show_nat (round_tenths ?q mod 10) @ units ! ?k)"
      using quotient_below_limit [OF b] by (simp add: formatSize_closed toFixed1_def Let_def)
    show "let k = unit_index_of n; q = real n / 1024 ^ k; m = round_tenths q in
         formatSize n = Some (show_nat (m div 10) @ ''.'' @ show_nat (m mod 10) @ units ! k)
         \<and> k \<le> 3 \<and> (k = 3 \<or> q < 1024) \<and> (k = 0 \<or> 1 \<le> q)
         \<and> real m \<le> 10 * q + 1 / 2 \<and> 10 * q + 1 / 2 < real m + 1
         \<and> \<bar>real m / 10 - q\<bar> \<le> 1 / 20"
      unfolding Let_def
      using f unit_index_of_exit [of n] round_tenths_bounds [OF q0] round_tenths_close [OF q0]
      by blast
  qed
  have 2: "\<forall>x. read_nat (show_nat x) = x"
    by (simp add: read_nat_show_nat)
  have 3: "units = [''B'', ''KB'', ''MB'', ''GB'']"
    by (simp add: units_def)
  have 4: "formatSize 1023 = Some ''1023.0B''"
    by (simp add: formatSize_eval)
  have 5: "formatSize 1024 = Some ''1.0KB''"
    by (simp add: formatSize_eval)
  have 6: "formatSize 1048576 = Some ''1.0MB''"
    by (simp add: formatSize_eval)
  have 7: "formatSize 1536 = Some ''1.5KB''"
    by (simp add: formatSize_eval)
  have 8: "formatSize 1280 = Some ''1.3KB''"
    by (simp add: formatSize_eval)
  have 9: "formatSize 1999 = Some ''2.0KB''"
    by (simp add: formatSize_eval)
  have 10: "formatSize 1075 = Some ''1.0KB''"
    by (simp add: formatSize_eval)
  have 11: "formatSize 1076 = Some ''1.1KB''"
    by (simp add: formatSize_eval)
  have 12: "formatSize 1099511627776 = Some ''1024.0GB''"
    by (simp add: formatSize_eval)
  from 1 2 3 4 5 6 7 8 9 10 11 12 show ?thesis by blast
qed

theorem formatSize_spec_witness:
  "(1280::nat) \<le> 2 ^ 53
   \<and> unit_index_of 1280 = 1
   \<and> round_tenths (real 1280 / 1024 ^ 1) = 13
   \<and> formatSize 1280 = Some (show_nat (13 div 10) @ ''.'' @ show_nat (13 mod 10) @ units ! 1)
   \<and> real (13::nat) \<le> 10 * (real 1280 / 1024 ^ 1) + 1 / 2
   \<and> 10 * (real 1280 / 1024 ^ 1) + 1 / 2 < real (13::nat) + 1"
  using formatSize_spec [of 1280]
  by (simp add: unit_index_of_def round_tenths_def Let_def)

section \<open>Tree Builder\<close>

subsection \<open>Paths\<close>

text \<open>
  \<^verbatim>\<open>path.dirname\<close> is Node's POSIX implementation (the server imports \<^verbatim>\<open>path\<close> and runs in a
  Linux container). It scans the string from its last character down to index 1,
  skipping trailing separators, and stops at the first separator that follows a
  non-separator; \<open>end'\<close> is the index of that separator.
  \<^verbatim>\<open>
    if (path.length === 0) return '.';
    const hasRoot = path.charCodeAt(0) === 47;
    let end = -1; let matchedSlash = true;
    for (let i = path.length - 1; i >= 1; --i) {
      if (path.charCodeAt(i) === 47) { if (!matchedSlash) { end = i; break; } }
      else matchedSlash = false;
    }
    if (end === -1) return hasRoot ? '/' : '.';
    if (hasRoot && end === 1) return '//';
    return path.slice(0, end);
  \<close>
\<close>

fun dirname_scan :: "string \<Rightarrow> nat \<Rightarrow> bool \<Rightarrow> nat option" where
  "dirname_scan p 0 matchedSlash = None"
| "dirname_scan p (Suc j) matchedSlash =
     (if p ! Suc j = CHR ''/''
      then (if \<not> matchedSlash then Some (Suc j) else dirname_scan p j matchedSlash)
      else dirname_scan p j False)"

definition dirname :: "string \<Rightarrow> string" where
  "dirname p =
     (if length p = 0 then ''.''
      else let hasRoot = (p ! 0 = CHR ''/'') in
        case dirname_scan p (length p - 1) True of
          None \<Rightarrow> if hasRoot then ''/'' else ''.''
        | Some end' \<Rightarrow> if hasRoot \<and> end' = 1 then ''//'' else take end' p)"

text \<open>The sort key: the number of \<^verbatim>\<open>/\<close> in the path, \<^verbatim>\<open>(path.match(/\//g) || []).length\<close>.\<close>

definition depth :: "string \<Rightarrow> nat" where
  "depth p = length (filter (\<lambda>c. c = CHR ''/'') p)"

subsection \<open>Records, nodes and the object store\<close>

text \<open>A file record as the archive extractor produces it.\<close>

record FileRecord =
  file_name :: string
  file_path :: string
  file_size :: nat
  file_type :: string
  file_modified :: string
  file_content :: string

text \<open>
  A node object. The root's size is the number 0, every other node's size is the
  formatted string (\<open>Str None\<close> when it is in exponent notation); the root has no \<^verbatim>\<open>modified\<close>; only directories have \<^verbatim>\<open>children\<close>.
  Node objects are shared between \<^verbatim>\<open>pathMap\<close> and their parent's \<^verbatim>\<open>children\<close> array and are
  mutated through \<^verbatim>\<open>pathMap\<close>, so they live in a store: a list of objects addressed by
  index, the root at address 0, and \<^verbatim>\<open>children\<close> holds addresses.
\<close>

datatype size_val = Num nat | Str "string option"

record node =
  node_name :: string
  node_path :: string
  node_size :: size_val
  node_type :: string
  node_modified :: "string option"
  node_children :: "nat list option"

datatype error = TypeError

text \<open>
  \<^verbatim>\<open>pathMap\<close> is the object literal \<^verbatim>\<open>{ '/': root }\<close>. Reading \<^verbatim>\<open>pathMap[k]\<close> gives the node
  stored under the own property \<open>k\<close>; failing that, the property of that name inherited
  from \<^verbatim>\<open>Object.prototype\<close> (a function, or the prototype itself for \<^verbatim>\<open>__proto__\<close>: truthy,
  and without a \<^verbatim>\<open>children\<close> property); failing that, \<^verbatim>\<open>undefined\<close>.
\<close>

datatype lookup = Undefined | Inherited | Ref nat

definition object_prototype_keys :: "string list" where
  "object_prototype_keys =
     [''constructor'', ''__proto__'', ''hasOwnProperty'', ''isPrototypeOf'',
      ''propertyIsEnumerable'', ''toLocaleString'', ''toString'', ''valueOf'',
      ''__defineGetter__'', ''__defineSetter__'', ''__lookupGetter__'', ''__lookupSetter__'']"

definition pathMap_get :: "(string \<rightharpoonup> nat) \<Rightarrow> string \<Rightarrow> lookup" where
  "pathMap_get pm k =
     (case pm k of Some a \<Rightarrow> Ref a
      | None \<Rightarrow> if k \<in> set object_prototype_keys then Inherited else Undefined)"

record tree_state =
  heap :: "node list"
  pathMap :: "string \<rightharpoonup> nat"

definition root :: node where
  "root = \<lparr>node_name = [], node_path = ''/'', node_size = Num 0, node_type = ''directory'',
           node_modified = None, node_children = Some []\<rparr>"

definition init_state :: tree_state where
  "init_state = \<lparr>heap = [root], pathMap = [''/'' \<mapsto> 0]\<rparr>"

definition mk_node :: "FileRecord \<Rightarrow> node" where
  "mk_node file =
     \<lparr>node_name = file_name file, node_path = file_path file,
      node_size = Str (formatSize (file_size file)), node_type = file_type file,
      node_modified = Some (file_modified file),
      node_children = (if file_type file = ''directory'' then Some [] else None)\<rparr>"

text \<open>
  \<^verbatim>\<open>pathMap[parentPath].children.push(node)\<close> on the object at address \<open>p\<close>: a TypeError when
  that object has no \<^verbatim>\<open>children\<close> (a file node).
\<close>

definition push_child :: "nat \<Rightarrow> nat \<Rightarrow> node list \<Rightarrow> error + node list" where
  "push_child p a h =
     (case node_children (h ! p) of
        None \<Rightarrow> Inl TypeError
      | Some cs \<Rightarrow> Inr (h[p := (h ! p)\<lparr>node_children := Some (cs @ [a])\<rparr>]))"

text \<open>
  One iteration of the loop. The record is skipped when \<^verbatim>\<open>pathMap[parentPath]\<close> is
  \<^verbatim>\<open>undefined\<close>. Otherwise the node is created and registered under its own path first, and
  \<^verbatim>\<open>pathMap[parentPath]\<close> is read again for the push.
\<close>

definition process_file :: "FileRecord \<Rightarrow> tree_state \<Rightarrow> error + tree_state" where
  "process_file file st =
     (let parentPath = dirname (file_path file) in
      case pathMap_get (pathMap st) parentPath of
        Undefined \<Rightarrow> Inr st
      | _ \<Rightarrow>
         (let a = length (heap st);
              heap1 = heap st @ [mk_node file];
              pathMap1 = (pathMap st)(file_path file \<mapsto> a)
          in case pathMap_get pathMap1 parentPath of
               Ref p \<Rightarrow> (case push_child p a heap1 of
                            Inl e \<Rightarrow> Inl e
                          | Inr heap2 \<Rightarrow> Inr \<lparr>heap = heap2, pathMap = pathMap1\<rparr>)
             | _ \<Rightarrow> Inl TypeError))"

fun process_files :: "FileRecord list \<Rightarrow> tree_state \<Rightarrow> error + tree_state" where
  "process_files [] st = Inr st"
| "process_files (file # files) st =
     (case process_file file st of Inl e \<Rightarrow> Inl e | Inr st' \<Rightarrow> process_files files st')"

text \<open>
  \<^verbatim>\<open>files.sort(cmp)\<close> with \<^verbatim>\<open>cmp(a, b) = depth(a) - depth(b)\<close>: the sort is stable and sorts the
  array it is called on, returning that same array.
\<close>

definition sortedFiles :: "FileRecord list \<Rightarrow> FileRecord list" where
  "sortedFiles files = sort_key (\<lambda>f. depth (file_path f)) files"

text \<open>
  \<^verbatim>\<open>buildFileTree(files)\<close>. The first component is the caller's array \<^verbatim>\<open>files\<close> after the call;
  the second is the TypeError thrown, or the store with the value of \<^verbatim>\<open>root.children\<close>.
\<close>

definition buildFileTree ::
  "FileRecord list \<Rightarrow> FileRecord list \<times> (error + node list \<times> nat list option)" where
  "buildFileTree files =
     (let sorted = sortedFiles files in
      (sorted,
       case process_files sorted init_state of
         Inl e \<Rightarrow> Inl e
       | Inr st \<Rightarrow> Inr (heap st, node_children (heap st ! 0))))"

subsection \<open>The returned objects read as a tree\<close>

datatype FileNode =
  FileNode (name: string) (path: string) (size': size_val) (type: string)
    (modified: "string option") (children: "FileNode list option")



text \<open>
  A path with its trailing separators removed, and whether it has any. Archive entries
  of directories carry one.
\<close>

definition strip_trailing :: "string \<Rightarrow> string" where
  "strip_trailing p = rev (dropWhile (\<lambda>c. c = CHR ''/'') (rev p))"


text \<open>
  A path \<open>d\<close> is a descendant of a directory path \<open>p\<close> when, trailing separators aside,
  it is \<open>p\<close>, a separator, and something more: \<^verbatim>\<open>/a/x\<close> is one of \<^verbatim>\<open>/a\<close> and of \<^verbatim>\<open>/a/\<close>, and
  every other absolute path is one of the root \<^verbatim>\<open>/\<close>.
\<close>

definition descendant :: "string \<Rightarrow> string \<Rightarrow> bool" where
  "descendant p d =
     (let p' = strip_trailing p; d' = strip_trailing d
      in length p' + 1 < length d' \<and> take (length p' + 1) d' = p' @ ''/'')"

definition example_record :: "string \<Rightarrow> string \<Rightarrow> string \<Rightarrow> FileRecord" where
  "example_record n p t = \<lparr>file_name = n, file_path = p, file_size = 0, file_type = t,
     file_modified = ''2024-01-01T00:00:00.000Z'', file_content = []\<rparr>"

definition example_node :: "string \<Rightarrow> string \<Rightarrow> string \<Rightarrow> FileNode list option \<Rightarrow> FileNode" where
  "example_node n p t cs =
     FileNode n p (Str (Some ''0.0B'')) t (Some ''2024-01-01T00:00:00.000Z'') cs"

text \<open>
  What every state of the loop satisfies: the root object is in the store and has its
  \<^verbatim>\<open>children\<close> array, and \<^verbatim>\<open>pathMap\<close> holds addresses of the store.
\<close>

definition tree_inv :: "tree_state \<Rightarrow> bool" where
  "tree_inv st = (heap st \<noteq> [] \<and> node_children (heap st ! 0) \<noteq> None
      \<and> (\<forall>k a. pathMap st k = Some a \<longrightarrow> a < length (heap st)))"

subsection \<open>Sorting and path depth\<close>


lemma strip_trailing_decomp:
  "p = strip_trailing p @ rev (takeWhile (\<lambda>c. c = CHR ''/'') (rev p))"
  unfolding strip_trailing_def
  by (metis rev_append rev_rev_ident takeWhile_dropWhile_id)



lemma sorted_sortedFiles: "sorted (map (\<lambda>f. depth (file_path f)) (sortedFiles files))"
  by (simp add: sortedFiles_def)

lemma mset_sortedFiles: "mset (sortedFiles files) = mset files"
  by (simp add: sortedFiles_def)

lemma stable_sortedFiles:
  "filter (\<lambda>f. depth (file_path f) = k) (sortedFiles files)
     = filter (\<lambda>f. depth (file_path f) = k) files"
  by (simp add: sortedFiles_def sort_key_stable)



text \<open>
  The parent the builder looks a record up under is a directory path the record's path
  is a descendant of, whenever that parent is not one of the three root forms
  \<^verbatim>\<open>.\<close>, \<^verbatim>\<open>/\<close> and \<^verbatim>\<open>//\<close>.
\<close>

lemma dirname_scan_Some:
  "dirname_scan p i m = Some e \<Longrightarrow> 0 < e \<and> e \<le> i \<and> (m \<longrightarrow> e < i) \<and> p ! e = CHR ''/''"
  by (induction p i m rule: dirname_scan.induct) (auto split: if_splits)

lemma trailing_all_sep:
  "set (rev (takeWhile (\<lambda>c. c = CHR ''/'') (rev p))) \<subseteq> {CHR ''/''}"
  by (auto dest: set_takeWhileD)

lemma strip_trailing_covers:
  assumes "k < length q" "q ! k \<noteq> CHR ''/''"
  shows "k < length (strip_trailing q)"
proof (rule ccontr)
  assume "\<not> k < length (strip_trailing q)"
  then have ge: "length (strip_trailing q) \<le> k" by simp
  let ?t = "rev (takeWhile (\<lambda>c. c = CHR ''/'') (rev q))"
  have d: "q = strip_trailing q @ ?t" by (rule strip_trailing_decomp)
  have "q ! k = (strip_trailing q @ ?t) ! k" using d by simp
  also have "\<dots> = ?t ! (k - length (strip_trailing q))"
    using ge by (simp add: nth_append)
  finally have e: "q ! k = ?t ! (k - length (strip_trailing q))" .
  have "length q = length (strip_trailing q) + length ?t"
    using d by (metis length_append)
  with assms(1) ge have "k - length (strip_trailing q) < length ?t" by simp
  then have "?t ! (k - length (strip_trailing q)) \<in> set ?t" by (rule nth_mem)
  with trailing_all_sep [of q] e assms(2) show False by auto
qed

lemma strip_trailing_take:
  assumes "n \<le> length (strip_trailing q)"
  shows "take n (strip_trailing q) = take n q"
proof -
  have "take n q = take n (strip_trailing q @ rev (takeWhile (\<lambda>c. c = CHR ''/'') (rev q)))"
    using strip_trailing_decomp [of q] by simp
  with assms show ?thesis by simp
qed

lemma dirname_scan_nonsep:
  "dirname_scan p i m = Some e \<Longrightarrow> m \<Longrightarrow> \<exists>k. e < k \<and> k \<le> i \<and> p ! k \<noteq> CHR ''/''"
proof (induction p i m rule: dirname_scan.induct)
  case (1 p matchedSlash)
  then show ?case by simp
next
  case (2 p j matchedSlash)
  show ?case
  proof (cases "p ! Suc j = CHR ''/''")
    case True
    with 2 obtain k where "e < k" "k \<le> j" "p ! k \<noteq> CHR ''/''" by auto
    then show ?thesis by (metis le_SucI)
  next
    case False
    with 2 have "dirname_scan p j False = Some e" by simp
    then have "e \<le> j" using dirname_scan_Some by blast
    with False show ?thesis by (metis le_imp_less_Suc order_refl)
  qed
qed

lemma dirname_descendant:
  assumes "dirname q = p" "p \<noteq> ''.''" "p \<noteq> ''/''" "p \<noteq> ''//''"
  shows "descendant p q"
proof -
  from assms have ne: "q \<noteq> []" by (auto simp: dirname_def)
  from assms ne obtain e where e: "dirname_scan q (length q - 1) True = Some e" "p = take e q"
    by (auto simp: dirname_def Let_def split: option.splits if_splits)
  from dirname_scan_Some [OF e(1)] have b: "0 < e" "e < length q - 1" "q ! e = CHR ''/''"
    by simp_all
  from dirname_scan_nonsep [OF e(1)] obtain k where k: "e < k" "k \<le> length q - 1"
    "q ! k \<noteq> CHR ''/''" by auto
  have kl: "k < length q" using k(2) ne by (cases q) auto
  have ks: "k < length (strip_trailing q)" using strip_trailing_covers [OF kl k(3)] .
  let ?p' = "strip_trailing p"
  have lp: "length p = e" using e(2) b by simp
  have pd: "p = ?p' @ rev (takeWhile (\<lambda>c. c = CHR ''/'') (rev p))"
    by (rule strip_trailing_decomp)
  have lp': "length ?p' \<le> e" using pd lp by (metis le_add1 length_append)
  have sep: "q ! length ?p' = CHR ''/''"
  proof (cases "length ?p' = e")
    case True
    with b show ?thesis by simp
  next
    case False
    with lp' have lt: "length ?p' < e" by simp
    let ?t = "rev (takeWhile (\<lambda>c. c = CHR ''/'') (rev p))"
    have "length p = length ?p' + length ?t" using pd by (metis length_append)
    with lt lp have tl: "0 < length ?t" by linarith
    have "q ! length ?p' = p ! length ?p'" using e(2) lt by simp
    also have "\<dots> = (?p' @ ?t) ! length ?p'" using pd by simp
    also have "\<dots> = ?t ! 0" by (simp add: nth_append)
    finally have "q ! length ?p' = ?t ! 0" .
    moreover have "?t ! 0 \<in> set ?t" using tl by (intro nth_mem)
    ultimately show ?thesis using trailing_all_sep [of p] by auto
  qed
  have le: "length ?p' + 1 \<le> length (strip_trailing q)" using lp' k(1) ks by simp
  have lq: "length ?p' < length q" using lp' b by simp
  have "take (length ?p' + 1) (strip_trailing q) = take (Suc (length ?p')) q"
    using strip_trailing_take [OF le] by simp
  also have "\<dots> = take (length ?p') q @ [q ! length ?p']"
    using lq by (simp add: take_Suc_conv_app_nth)
  also have "take (length ?p') q = ?p'"
  proof -
    have "take (length ?p') q = take (length ?p') (take e q)" using lp' by (simp add: min_def)
    also have "\<dots> = take (length ?p') p" using e(2) by simp
    also have "\<dots> = take (length ?p') (?p' @ rev (takeWhile (\<lambda>c. c = CHR ''/'') (rev p)))"
      using pd by simp
    also have "\<dots> = ?p'" by simp
    finally show ?thesis .
  qed
  finally have t: "take (length ?p' + 1) (strip_trailing q) = ?p' @ ''/''"
    using sep by simp
  have "length ?p' + 1 < length (strip_trailing q)" using lp' k(1) ks by simp
  with t show ?thesis by (simp add: descendant_def Let_def)
qed

subsection \<open>The drop rule\<close>

lemma process_file_drops:
  assumes "pathMap st (dirname (file_path file)) = None"
    and "dirname (file_path file) \<notin> set object_prototype_keys"
  shows "process_file file st = Inr st"
  using assms by (simp add: process_file_def pathMap_get_def)

lemmas tree_eval =
  buildFileTree_def sortedFiles_def depth_def example_record_def process_file_def
  dirname_def pathMap_get_def object_prototype_keys_def init_state_def root_def mk_node_def
  push_child_def formatSize_0 Let_def

lemma buildFileTree_orphan:
  "buildFileTree [example_record ''c.txt'' ''/a/b/c.txt'' ''file'']
     = ([example_record ''c.txt'' ''/a/b/c.txt'' ''file''], Inr ([root], Some []))"
  by (simp add: tree_eval)

subsection \<open>The builder returns a list unless it throws\<close>

lemma tree_inv_init: "tree_inv init_state"
  by (simp add: tree_inv_def init_state_def root_def)

lemma push_child_inv:
  assumes "push_child p a h = Inr h'" "h \<noteq> []" "node_children (h ! 0) \<noteq> None" "p < length h"
  shows "length h' = length h \<and> node_children (h' ! 0) \<noteq> None"
  using assms by (auto simp: push_child_def nth_list_update split: option.splits)

lemma process_file_attach:
  assumes "pathMap_get (pathMap st) (dirname (file_path file)) \<noteq> Undefined"
  shows "process_file file st =
     (case pathMap_get ((pathMap st)(file_path file \<mapsto> length (heap st)))
             (dirname (file_path file)) of
        Ref p \<Rightarrow> (case push_child p (length (heap st)) (heap st @ [mk_node file]) of
                     Inl e \<Rightarrow> Inl e
                   | Inr heap2 \<Rightarrow>
                       Inr \<lparr>heap = heap2,
                            pathMap = (pathMap st)(file_path file \<mapsto> length (heap st))\<rparr>)
      | _ \<Rightarrow> Inl TypeError)"
  using assms
  by (cases "pathMap_get (pathMap st) (dirname (file_path file))")
    (simp_all add: process_file_def Let_def)

lemma process_file_inv:
  assumes "process_file file st = Inr st'" "tree_inv st"
  shows "tree_inv st'"
proof (cases "pathMap_get (pathMap st) (dirname (file_path file)) = Undefined")
  case True
  with assms show ?thesis by (simp add: process_file_def)
next
  case False
  let ?pp = "dirname (file_path file)"
  let ?a = "length (heap st)"
  let ?h1 = "heap st @ [mk_node file]"
  let ?pm1 = "(pathMap st)(file_path file \<mapsto> ?a)"
  from assms(1) obtain p h2 where p: "pathMap_get ?pm1 ?pp = Ref p"
    and h2: "push_child p ?a ?h1 = Inr h2" "st' = \<lparr>heap = h2, pathMap = ?pm1\<rparr>"
    unfolding process_file_attach [OF False]
    by (cases "pathMap_get ?pm1 ?pp"; cases "push_child (case pathMap_get ?pm1 ?pp of Ref p \<Rightarrow> p | _ \<Rightarrow> 0) ?a ?h1")
      auto
  from p have pm: "?pm1 ?pp = Some p"
    by (auto simp: pathMap_get_def split: option.splits if_splits)
  have plt: "p < length ?h1"
  proof (cases "?pp = file_path file")
    case True
    with pm show ?thesis by simp
  next
    case False
    with pm have "pathMap st ?pp = Some p" by simp
    with assms(2) have "p < length (heap st)" by (simp add: tree_inv_def)
    then show ?thesis by simp
  qed
  have "?h1 \<noteq> []" "node_children (?h1 ! 0) \<noteq> None"
    using assms(2) by (auto simp: tree_inv_def nth_append)
  from push_child_inv [OF h2(1) this plt]
  have l: "length h2 = Suc (length (heap st))" "node_children (h2 ! 0) \<noteq> None" by simp_all
  show ?thesis
    using assms(2) l h2(2) by (auto simp: tree_inv_def less_Suc_eq)
qed

lemma process_files_inv:
  "process_files files st = Inr st' \<Longrightarrow> tree_inv st \<Longrightarrow> tree_inv st'"
  by (induction files arbitrary: st) (auto split: sum.splits dest: process_file_inv)

lemma buildFileTree_returns_list:
  assumes "snd (buildFileTree files) = Inr (h, r)"
  shows "\<exists>cs. r = Some cs"
proof -
  from assms obtain st where st: "process_files (sortedFiles files) init_state = Inr st"
    "h = heap st" "r = node_children (heap st ! 0)"
    by (auto simp: buildFileTree_def Let_def split: sum.splits)
  from process_files_inv [OF st(1) tree_inv_init] show ?thesis
    by (auto simp: tree_inv_def st(3))
qed

subsection \<open>Claims on the Tree Builder\<close>

text \<open>
  C6. A record whose parent path has no node in the tree is to be dropped without error.
  For the record \<^verbatim>\<open>constructor/x\<close> the parent path \<^verbatim>\<open>constructor\<close> has no node, yet
  \<^verbatim>\<open>pathMap['constructor']\<close> is the inherited \<^verbatim>\<open>Object\<close> function, the record is not skipped,
  and the push on the missing \<^verbatim>\<open>children\<close> throws a TypeError.
\<close>

theorem buildFileTree_inherited_parent_throws:
  "dirname ''constructor/x'' = ''constructor''
   \<and> pathMap init_state ''constructor'' = None
   \<and> snd (buildFileTree [example_record ''x'' ''constructor/x'' ''file'']) = Inl TypeError"
  by (simp add: tree_eval)




text \<open>
  C10. The sort is done in place: after the call the caller's list is the input
  stably sorted by ascending path depth (a permutation of the input, records of equal
  depth in their original order), whether or not the loop then throws. A list given as
  \<^verbatim>\<open>/a/b/c.txt\<close>, \<^verbatim>\<open>/a\<close> comes back as \<^verbatim>\<open>/a\<close>, \<^verbatim>\<open>/a/b/c.txt\<close>.
\<close>

theorem buildFileTree_sorts_in_place:
  "fst (buildFileTree files) = sort_key (\<lambda>f. depth (file_path f)) files
   \<and> mset (fst (buildFileTree files)) = mset files
   \<and> sorted (map (\<lambda>f. depth (file_path f)) (fst (buildFileTree files)))
   \<and> (\<forall>k. filter (\<lambda>f. depth (file_path f) = k) (fst (buildFileTree files))
            = filter (\<lambda>f. depth (file_path f) = k) files)
   \<and> fst (buildFileTree [example_record ''c.txt'' ''/a/b/c.txt'' ''file'',
          example_record ''a'' ''/a'' ''directory''])
       = [example_record ''a'' ''/a'' ''directory'', example_record ''c.txt'' ''/a/b/c.txt'' ''file'']
   \<and> fst (buildFileTree [example_record ''c.txt'' ''/a/b/c.txt'' ''file'',
          example_record ''a'' ''/a'' ''directory''])
       \<noteq> [example_record ''c.txt'' ''/a/b/c.txt'' ''file'', example_record ''a'' ''/a'' ''directory'']"
proof -
  have f: "fst (buildFileTree files) = sortedFiles files"
    by (simp add: buildFileTree_def Let_def)
  have ex: "fst (buildFileTree [example_record ''c.txt'' ''/a/b/c.txt'' ''file'',
          example_record ''a'' ''/a'' ''directory''])
       = [example_record ''a'' ''/a'' ''directory'', example_record ''c.txt'' ''/a/b/c.txt'' ''file'']"
    by (simp add: buildFileTree_def Let_def sortedFiles_def depth_def example_record_def)
  have ne: "fst (buildFileTree [example_record ''c.txt'' ''/a/b/c.txt'' ''file'',
          example_record ''a'' ''/a'' ''directory''])
       \<noteq> [example_record ''c.txt'' ''/a/b/c.txt'' ''file'', example_record ''a'' ''/a'' ''directory'']"
    unfolding ex by (simp add: example_record_def)
  show ?thesis
    unfolding f using sorted_sortedFiles mset_sortedFiles stable_sortedFiles
      ex [unfolded f] ne [unfolded f]
    by (simp add: sortedFiles_def)
qed

section \<open>Job pipeline and HTTP handlers\<close>

subsection \<open>The stores and the container engine\<close>

text \<open>
  The server keeps job records as hashes in one Redis database (\<^verbatim>\<open>jobQueue\<close>) and cached
  results as strings in another (\<^verbatim>\<open>redis\<close>, written with a time to live: an expired entry
  is an absent key). \<open>containers\<close> are the containers that exist in the engine.
  \<open>status_writes\<close> is the history of the job records: every value written to a
  \<^verbatim>\<open>status\<close> field, with its key, in program order.
\<close>

type_synonym hash = "string \<rightharpoonup> string"

record world =
  jobQueue :: "string \<rightharpoonup> hash"
  redis :: "string \<rightharpoonup> string"
  containers :: "nat list"
  status_writes :: "(string \<times> string) list"

definition empty_world :: world where
  "empty_world = \<lparr>jobQueue = Map.empty, redis = Map.empty, containers = [], status_writes = []\<rparr>"

text \<open>
  \<^verbatim>\<open>hgetall\<close> of the Redis client resolves to an object with the fields of the hash; for a key
  that does not exist the reply is the empty list and the object is \<^verbatim>\<open>{}\<close>, never \<^verbatim>\<open>null\<close>.
  The result is an \<open>option\<close> so that the handlers' tests for a falsy value are branches of
  the model.
\<close>

definition hgetall :: "world \<Rightarrow> string \<Rightarrow> hash option" where
  "hgetall w key = (case jobQueue w key of None \<Rightarrow> Some Map.empty | Some h \<Rightarrow> Some h)"

text \<open>\<^verbatim>\<open>hset\<close> and \<^verbatim>\<open>hmset\<close> with an object: the fields are set in the hash at the key.\<close>

definition hset :: "string \<Rightarrow> (string \<times> string) list \<Rightarrow> world \<Rightarrow> world" where
  "hset key pairs w =
     w\<lparr>jobQueue := (jobQueue w)(key \<mapsto>
          foldl (\<lambda>h (f, v). h(f \<mapsto> v))
            (case jobQueue w key of None \<Rightarrow> Map.empty | Some h \<Rightarrow> h) pairs),
       status_writes := status_writes w
          @ map (\<lambda>(f, v). (key, v)) (filter (\<lambda>(f, v). f = ''status'') pairs)\<rparr>"

text \<open>The client sends \<^verbatim>\<open>undefined\<close> as the empty string.\<close>

definition toArg :: "string option \<Rightarrow> string" where
  "toArg arg = (case arg of None \<Rightarrow> [] | Some s \<Rightarrow> s)"

definition job_key :: "string \<Rightarrow> string" where
  "job_key jobId = ''job:'' @ jobId"

definition result_key :: "string \<Rightarrow> string" where
  "result_key jobId = ''result:'' @ jobId"

text \<open>A JavaScript string or \<^verbatim>\<open>undefined\<close>/\<^verbatim>\<open>null\<close> in a condition.\<close>

definition truthy :: "string option \<Rightarrow> bool" where
  "truthy v = (case v of None \<Rightarrow> False | Some s \<Rightarrow> s \<noteq> [])"

definition status_sequence :: "string \<Rightarrow> world \<Rightarrow> string list" where
  "status_sequence jobId w = map snd (filter (\<lambda>(k, v). k = job_key jobId) (status_writes w))"

subsection \<open>The worker\<close>

text \<open>
  What the engine and the stores answer during one run of \<^verbatim>\<open>processJob\<close>: for each awaited
  call, the message of the error it rejects with, or its value. \<open>result_json\<close> is the
  construction of \<^verbatim>\<open>result\<close> from the image's metadata and the file tree followed by
  \<^verbatim>\<open>JSON.stringify\<close>; it throws when the metadata lacks a property it reads.
\<close>

record 'i job_env =
  pull_err :: "string option"
  inspect_res :: "string + 'i"
  create_res :: "string + nat"
  archive_res :: "string + FileRecord list"
  remove_err :: "string option"
  result_json :: "'i \<Rightarrow> node list \<times> nat list option \<Rightarrow> string + string"
  setex_err :: "string option"
  hset_completed_err :: "string option"
  hset_failed_err :: "string option"

definition type_error_message :: string where
  "type_error_message = ''Cannot read properties of undefined (reading 'push')''"

definition listFiles :: "'i job_env \<Rightarrow> string + node list \<times> nat list option" where
  "listFiles env =
     (case archive_res env of
        Inl m \<Rightarrow> Inl m
      | Inr files \<Rightarrow>
          (case snd (buildFileTree files) of
             Inl TypeError \<Rightarrow> Inl type_error_message
           | Inr t \<Rightarrow> Inr t))"

text \<open>
  The \<^verbatim>\<open>try\<close> block of \<^verbatim>\<open>processJob\<close>: the world it leaves, or the message thrown and the world
  at the throw.
\<close>

definition processJob_try ::
  "'i job_env \<Rightarrow> string option \<Rightarrow> string \<Rightarrow> world \<Rightarrow> string \<times> world + world" where
  "processJob_try env imageUrl jobId w =
     (case pull_err env of Some m \<Rightarrow> Inl (m, w) | None \<Rightarrow>
      case inspect_res env of Inl m \<Rightarrow> Inl (m, w) | Inr inspect \<Rightarrow>
      case create_res env of Inl m \<Rightarrow> Inl (m, w) | Inr container \<Rightarrow>
        let w1 = w\<lparr>containers := containers w @ [container]\<rparr> in
        case listFiles env of Inl m \<Rightarrow> Inl (m, w1) | Inr filesResult \<Rightarrow>
        case remove_err env of Some m \<Rightarrow> Inl (m, w1) | None \<Rightarrow>
          let w2 = w1\<lparr>containers := removeAll container (containers w1)\<rparr> in
          case result_json env inspect filesResult of Inl m \<Rightarrow> Inl (m, w2) | Inr json \<Rightarrow>
          case setex_err env of Some m \<Rightarrow> Inl (m, w2) | None \<Rightarrow>
            let w3 = w2\<lparr>redis := (redis w2)(result_key jobId \<mapsto> json)\<rparr> in
            case hset_completed_err env of Some m \<Rightarrow> Inl (m, w3) | None \<Rightarrow>
              Inr (hset (job_key jobId) [(''status'', ''completed''), (''result'', json)] w3))"

text \<open>
  \<^verbatim>\<open>processJob\<close> with its \<^verbatim>\<open>catch\<close>: the first component is the message the returned promise
  rejects with, when the write of the failure itself fails.
\<close>

definition processJob ::
  "'i job_env \<Rightarrow> string option \<Rightarrow> string \<Rightarrow> world \<Rightarrow> string option \<times> world" where
  "processJob env imageUrl jobId w =
     (case processJob_try env imageUrl jobId w of
        Inr w' \<Rightarrow> (None, w')
      | Inl (m, w') \<Rightarrow>
          (case hset_failed_err env of
             Some m' \<Rightarrow> (Some m', w')
           | None \<Rightarrow> (None, hset (job_key jobId) [(''status'', ''failed''), (''error'', m)] w')))"

text \<open>Every awaited call of the \<^verbatim>\<open>try\<close> block succeeds, the write of \<^verbatim>\<open>completed\<close> included.\<close>

definition run_succeeds :: "'i job_env \<Rightarrow> bool" where
  "run_succeeds env =
     (pull_err env = None \<and>
      (case inspect_res env of
         Inl m \<Rightarrow> False
       | Inr inspect \<Rightarrow>
           (case create_res env of
              Inl m \<Rightarrow> False
            | Inr container \<Rightarrow>
                (case listFiles env of
                   Inl m \<Rightarrow> False
                 | Inr filesResult \<Rightarrow>
                     remove_err env = None \<and>
                     (case result_json env inspect filesResult of
                        Inl m \<Rightarrow> False
                      | Inr json \<Rightarrow> setex_err env = None \<and> hset_completed_err env = None)))))"

subsection \<open>POST /api/inspect\<close>

datatype inspect_response = Json_job_id string | Status400 string

text \<open>
  \<open>image_name\<close> is the field of that name in the request body (\<open>None\<close> when the body has
  none), \<open>jobId\<close> the identifier \<^verbatim>\<open>uuidv4()\<close> returns, \<open>hmset_err\<close> the error of the write of
  the job record, if it fails. The third component is the job handed to the worker,
  which runs after the response is decided.
\<close>

definition post_inspect ::
  "string option \<Rightarrow> string option \<Rightarrow> string \<Rightarrow> world
     \<Rightarrow> inspect_response \<times> world \<times> (string option \<times> string) option" where
  "post_inspect hmset_err image_name jobId w =
     (let imageUrl = image_name in
      case hmset_err of
        Some m \<Rightarrow> (Status400 m, w, None)
      | None \<Rightarrow>
          (Json_job_id jobId,
           hset (job_key jobId)
             [(''imageUrl'', toArg imageUrl), (''jobId'', jobId), (''status'', ''pending'')] w,
           Some (imageUrl, jobId)))"

text \<open>A request followed by the run of the job it dispatched.\<close>

definition submit ::
  "'i job_env \<Rightarrow> string option \<Rightarrow> string option \<Rightarrow> string \<Rightarrow> world
     \<Rightarrow> inspect_response \<times> world" where
  "submit env hmset_err image_name jobId w =
     (case post_inspect hmset_err image_name jobId w of
        (response, w1, None) \<Rightarrow> (response, w1)
      | (response, w1, Some (imageUrl, jobId')) \<Rightarrow>
          (response, snd (processJob env imageUrl jobId' w1)))"

subsection \<open>GET /api/status/:jobId and GET /api/results/:jobId\<close>

text \<open>
  \<open>parse\<close> is \<^verbatim>\<open>JSON.parse\<close>: the value, or the message of the SyntaxError. The error
  arguments are the errors of the store reads, if they fail.
\<close>

datatype 'r status_response =
  StatusJson "string option" "'r option" "string option"
  | StatusNotFound string
  | StatusError string

definition get_status ::
  "(string \<Rightarrow> string + 'r) \<Rightarrow> string option \<Rightarrow> world \<Rightarrow> string \<Rightarrow> 'r status_response" where
  "get_status parse hgetall_err w jobId =
     (case hgetall_err of
        Some m \<Rightarrow> StatusError m
      | None \<Rightarrow>
          (case hgetall w (job_key jobId) of
             None \<Rightarrow> StatusNotFound ''Job not found''
           | Some jobData \<Rightarrow>
               (case (if truthy (jobData ''result'')
                      then map_sum id Some (parse (the (jobData ''result'')))
                      else Inr None) of
                  Inl m \<Rightarrow> StatusError m
                | Inr result \<Rightarrow>
                    StatusJson (jobData ''status'') result
                      (if truthy (jobData ''error'') then jobData ''error'' else None))))"

datatype 'r results_response = ResultsJson 'r | ResultsNotFound string | ResultsError string

definition get_results ::
  "(string \<Rightarrow> string + 'r) \<Rightarrow> string option \<Rightarrow> string option \<Rightarrow> world \<Rightarrow> string
     \<Rightarrow> 'r results_response" where
  "get_results parse get_err hgetall_err w jobId =
     (case get_err of
        Some m \<Rightarrow> ResultsError m
      | None \<Rightarrow>
          let cachedResult = redis w (result_key jobId) in
          if truthy cachedResult
          then (case parse (the cachedResult) of
                  Inl m \<Rightarrow> ResultsError m | Inr r \<Rightarrow> ResultsJson r)
          else (case hgetall_err of
                  Some m \<Rightarrow> ResultsError m
                | None \<Rightarrow>
                    (case hgetall w (job_key jobId) of
                       None \<Rightarrow> ResultsNotFound ''Results not found''
                     | Some jobData \<Rightarrow>
                         if jobData ''status'' \<noteq> Some ''completed''
                         then ResultsNotFound ''Results not found''
                         else (case parse (case jobData ''result'' of
                                             None \<Rightarrow> ''undefined'' | Some s \<Rightarrow> s) of
                                 Inl m \<Rightarrow> ResultsError m | Inr r \<Rightarrow> ResultsJson r))))"

subsection \<open>GET /api/file/:imageName\<close>

record file_env =
  file_create_res :: "string + nat"
  file_archive_res :: "string + FileRecord list"
  file_remove_err :: "string option"

datatype file_response = FileJson "FileRecord option" | FileStatus404 string

definition getFileContents :: "file_env \<Rightarrow> string + FileRecord option" where
  "getFileContents env =
     (case file_archive_res env of
        Inl m \<Rightarrow> Inl m
      | Inr files \<Rightarrow> Inr (case files of [] \<Rightarrow> None | f # _ \<Rightarrow> Some f))"

text \<open>
  The container is removed in a \<^verbatim>\<open>finally\<close>. When the file was read the response is
  already sent by then; when it was not, an error of the removal replaces the first one.
\<close>

definition get_file :: "file_env \<Rightarrow> world \<Rightarrow> file_response \<times> world" where
  "get_file env w =
     (case file_create_res env of
        Inl m \<Rightarrow> (FileStatus404 m, w)
      | Inr container \<Rightarrow>
          let w1 = w\<lparr>containers := containers w @ [container]\<rparr>;
              w2 = w1\<lparr>containers := removeAll container (containers w1)\<rparr>
          in case getFileContents env of
               Inr fileData \<Rightarrow>
                 (FileJson fileData, case file_remove_err env of None \<Rightarrow> w2 | Some m' \<Rightarrow> w1)
             | Inl m \<Rightarrow>
                 (case file_remove_err env of
                    None \<Rightarrow> (FileStatus404 m, w2)
                  | Some m' \<Rightarrow> (FileStatus404 m', w1)))"

subsection \<open>Concrete runs\<close>

text \<open>Every call succeeds and the archive is empty.\<close>

definition ok_env :: "unit job_env" where
  "ok_env = \<lparr>pull_err = None, inspect_res = Inr (), create_res = Inr 1,
     archive_res = Inr [], remove_err = None, result_json = (\<lambda>i t. Inr ''{}''),
     setex_err = None, hset_completed_err = None, hset_failed_err = None\<rparr>"

text \<open>The image has no \<^verbatim>\<open>/app\<close>: the export of the archive is rejected.\<close>

definition no_app_env :: "unit job_env" where
  "no_app_env = ok_env\<lparr>archive_res := Inl ''Could not find the file /app in container''\<rparr>"

text \<open>The pull is refused and the job store cannot be written.\<close>

definition store_down_env :: "unit job_env" where
  "store_down_env = ok_env\<lparr>pull_err := Some ''pull access denied'',
     hset_failed_err := Some ''Connection is closed.''\<rparr>"

text \<open>
  A cached result for \<^verbatim>\<open>j1\<close>, a completed job \<^verbatim>\<open>j2\<close> whose cache entry has expired, a
  pending job \<^verbatim>\<open>j3\<close>, and nothing for \<^verbatim>\<open>j4\<close>.
\<close>

definition example_world :: world where
  "example_world =
     \<lparr>jobQueue = [''job:j2'' \<mapsto> [''status'' \<mapsto> ''completed'', ''result'' \<mapsto> ''{}''],
                  ''job:j3'' \<mapsto> [''status'' \<mapsto> ''pending'']],
      redis = [''result:j1'' \<mapsto> ''{}''], containers = [], status_writes = []\<rparr>"

definition example_parse :: "string \<Rightarrow> string + nat" where
  "example_parse s = (if s = ''{}'' then Inr 0 else Inl ''Unexpected token'')"

subsection \<open>The status history of a job\<close>

lemma status_sequence_hset:
  "status_sequence jobId (hset (job_key jobId) pairs w)
     = status_sequence jobId w @ map snd (filter (\<lambda>(f, v). f = ''status'') pairs)"
  by (induction pairs) (auto simp: status_sequence_def hset_def)

lemma status_sequence_frame:
  "status_writes w' = status_writes w \<Longrightarrow> status_sequence jobId w' = status_sequence jobId w"
  by (simp add: status_sequence_def)

lemma status_sequence_update [simp]:
  "status_sequence jobId (w\<lparr>containers := c\<rparr>) = status_sequence jobId w"
  "status_sequence jobId (w\<lparr>redis := r\<rparr>) = status_sequence jobId w"
  by (simp_all add: status_sequence_def)

lemma processJob_try_Inl_writes:
  "processJob_try env imageUrl jobId w = Inl (m, w') \<Longrightarrow> status_writes w' = status_writes w"
  by (auto simp: processJob_try_def Let_def split: option.splits sum.splits)

lemma processJob_try_Inr_sequence:
  "processJob_try env imageUrl jobId w = Inr w'
     \<Longrightarrow> status_sequence jobId w' = status_sequence jobId w @ [''completed'']"
  by (auto simp: processJob_try_def Let_def status_sequence_hset
      split: option.splits sum.splits)

lemma processJob_try_succeeds:
  "run_succeeds env \<Longrightarrow> \<exists>w'. processJob_try env imageUrl jobId w = Inr w'"
  by (auto simp: run_succeeds_def processJob_try_def Let_def split: option.splits sum.splits)

lemma processJob_try_fails:
  "\<not> run_succeeds env \<Longrightarrow> \<exists>m w'. processJob_try env imageUrl jobId w = Inl (m, w')"
  by (auto simp: run_succeeds_def processJob_try_def Let_def split: option.splits sum.splits)

lemma processJob_sequence_exact:
  "status_sequence jobId (snd (processJob env imageUrl jobId w))
     = status_sequence jobId w
       @ (if run_succeeds env then [''completed'']
          else if hset_failed_err env = None then [''failed''] else [])"
proof (cases "run_succeeds env")
  case True
  from processJob_try_succeeds [OF True] obtain w'
    where "processJob_try env imageUrl jobId w = Inr w'" by blast
  with True show ?thesis
    by (simp add: processJob_def processJob_try_Inr_sequence)
next
  case False
  from processJob_try_fails [OF False] obtain m w'
    where t: "processJob_try env imageUrl jobId w = Inl (m, w')" by blast
  then have "status_sequence jobId w' = status_sequence jobId w"
    by (auto dest: processJob_try_Inl_writes intro: status_sequence_frame)
  with t False show ?thesis
    by (cases "hset_failed_err env") (simp_all add: processJob_def status_sequence_hset)
qed

text \<open>A run that completes leaves the same serialized result in the job record and in the cache.\<close>

lemma processJob_try_completed:
  assumes "processJob_try env imageUrl jobId w = Inr w'"
  shows "\<exists>h json. jobQueue w' (job_key jobId) = Some h \<and> h ''status'' = Some ''completed''
          \<and> h ''result'' = Some json \<and> redis w' (result_key jobId) = Some json"
  using assms
  by (auto simp: processJob_try_def Let_def hset_def split: option.splits sum.splits)

text \<open>
  C1, as stated, fails: when every step succeeds the statuses written for the job are
  \<^verbatim>\<open>pending\<close> and then \<^verbatim>\<open>completed\<close>, and \<^verbatim>\<open>processing\<close> is never among them; and when the pull
  is refused and the write of the failure fails too, \<^verbatim>\<open>pending\<close> is followed by no terminal
  status.
\<close>

theorem status_sequence_counterexample:
  "status_sequence ''j1'' (snd (submit ok_env None (Some ''alpine:latest'') ''j1'' empty_world))
     = [''pending'', ''completed'']
   \<and> ''processing'' \<notin> set (status_sequence ''j1''
        (snd (submit ok_env None (Some ''alpine:latest'') ''j1'' empty_world)))
   \<and> status_sequence ''j1''
        (snd (submit store_down_env None (Some ''alpine:latest'') ''j1'' empty_world))
     = [''pending'']"
  by (simp add: submit_def post_inspect_def processJob_def processJob_try_def ok_env_def
      store_down_env_def listFiles_def tree_eval hset_def job_key_def status_sequence_def
      empty_world_def)

text \<open>
  C1, amended. For every accepted submission and every behaviour of the engine and the
  stores, the statuses written for the job are \<^verbatim>\<open>pending\<close>, then \<^verbatim>\<open>completed\<close> when every step
  of the run succeeds, \<^verbatim>\<open>failed\<close> when a step fails and the write of the failure succeeds,
  and no terminal status when a step fails and the write of the failure fails too;
  nothing is written after that, and \<^verbatim>\<open>processing\<close> is never written.
\<close>

theorem status_sequence_amended:
  "status_sequence jobId (snd (submit env None image_name jobId w))
     = status_sequence jobId w
       @ ''pending'' # (if run_succeeds env then [''completed'']
                        else if hset_failed_err env = None then [''failed''] else [])
   \<and> ''processing'' \<notin> set (''pending'' # (if run_succeeds env then [''completed'']
                        else if hset_failed_err env = None then [''failed''] else []))"
proof -
  let ?w1 = "hset (job_key jobId)
             [(''imageUrl'', toArg image_name), (''jobId'', jobId), (''status'', ''pending'')] w"
  have s: "snd (submit env None image_name jobId w) = snd (processJob env image_name jobId ?w1)"
    by (simp add: submit_def post_inspect_def)
  have p: "status_sequence jobId ?w1 = status_sequence jobId w @ [''pending'']"
    by (simp add: status_sequence_hset)
  have "status_sequence jobId (snd (submit env None image_name jobId w))
     = status_sequence jobId w
       @ ''pending'' # (if run_succeeds env then [''completed'']
                        else if hset_failed_err env = None then [''failed''] else [])"
    unfolding s processJob_sequence_exact p by simp
  then show ?thesis by simp
qed

lemma run_succeeds_ok_env: "run_succeeds ok_env"
  by (simp add: run_succeeds_def ok_env_def listFiles_def tree_eval)

lemma run_fails_no_app_env: "\<not> run_succeeds no_app_env"
  by (simp add: run_succeeds_def no_app_env_def ok_env_def listFiles_def)

subsection \<open>Removal of the temporary container\<close>

text \<open>The file handler removes the container it created, whatever the read did.\<close>

lemma get_file_removes_container:
  assumes "file_remove_err env = None" "file_create_res env = Inr c" "c \<notin> set (containers w)"
  shows "containers (snd (get_file env w)) = containers w"
  using assms by (simp add: get_file_def Let_def split: sum.splits)

lemma get_file_no_container:
  assumes "file_create_res env = Inl m"
  shows "get_file env w = (FileStatus404 m, w)"
  using assms by (simp add: get_file_def)

text \<open>
  C2. The container created for a filesystem operation is to be removed on every exit
  path. In the worker the removal follows the listing inside the \<^verbatim>\<open>try\<close> block: when the
  listing raises (the image has no \<^verbatim>\<open>/app\<close>) and the removal itself would succeed, the
  container created for the job still exists after the run.
\<close>

theorem processJob_leaks_container:
  "containers empty_world = []
   \<and> remove_err no_app_env = None
   \<and> containers (snd (processJob no_app_env (Some ''alpine:latest'') ''j1'' empty_world)) = [1]"
  by (simp add: processJob_def processJob_try_def no_app_env_def ok_env_def listFiles_def
      hset_def empty_world_def)

subsection \<open>Submission\<close>

text \<open>
  C3, as stated, fails: a body whose image reference is the empty string, and a body
  without one, are answered with a job id, and the job record exists afterwards.
\<close>

theorem post_inspect_counterexample:
  "fst (post_inspect None (Some []) ''j1'' empty_world) = Json_job_id ''j1''
   \<and> fst (post_inspect None None ''j1'' empty_world) = Json_job_id ''j1''
   \<and> jobQueue (fst (snd (post_inspect None (Some []) ''j1'' empty_world))) (job_key ''j1'') \<noteq> None
   \<and> jobQueue (fst (snd (post_inspect None None ''j1'' empty_world))) (job_key ''j1'') \<noteq> None"
  by (simp add: post_inspect_def hset_def Let_def)

text \<open>
  C3, amended. For every body, with an empty, a missing or a non-empty image reference:
  when the write of the job record succeeds the endpoint answers with the job id without
  waiting for the job, the job record exists with status \<^verbatim>\<open>pending\<close>, and the job is handed
  to the worker; the answer is 400, with no job record written and no job dispatched,
  exactly when that write fails.
\<close>

theorem post_inspect_amended:
  "post_inspect None image_name jobId w
     = (Json_job_id jobId,
        hset (job_key jobId)
          [(''imageUrl'', toArg image_name), (''jobId'', jobId), (''status'', ''pending'')] w,
        Some (image_name, jobId))
   \<and> (\<exists>h. jobQueue (fst (snd (post_inspect None image_name jobId w))) (job_key jobId) = Some h
          \<and> h ''status'' = Some ''pending'')
   \<and> post_inspect (Some m) image_name jobId w = (Status400 m, w, None)"
  by (simp add: post_inspect_def hset_def Let_def)

subsection \<open>Status query\<close>

lemma get_status_never_404:
  "get_status parse hgetall_err w jobId \<noteq> StatusNotFound m"
  by (simp add: get_status_def hgetall_def split: option.splits sum.splits)

lemma get_status_known_job:
  assumes "jobQueue w (job_key jobId) = Some h"
  shows "get_status parse None w jobId =
     (case (if truthy (h ''result'') then map_sum id Some (parse (the (h ''result'')))
            else Inr None) of
        Inl m \<Rightarrow> StatusError m
      | Inr result \<Rightarrow>
          StatusJson (h ''status'') result (if truthy (h ''error'') then h ''error'' else None))"
  using assms by (simp add: get_status_def hgetall_def)

text \<open>
  C4. A status query for a job id that was never created is to fail with 404. The
  handler's test is on the object \<^verbatim>\<open>hgetall\<close> resolves to, which for a missing key is the
  empty object and not a falsy value: the answer is a 200 with no status, a null result
  and a null error.
\<close>

theorem get_status_unknown_job:
  "jobQueue empty_world (job_key ''no-such-job'') = None
   \<and> get_status parse None empty_world ''no-such-job'' = StatusJson None None None"
  by (simp add: get_status_def hgetall_def empty_world_def truthy_def)

subsection \<open>Result fetch\<close>

text \<open>
  C8, as stated, fails: with no cache entry and no job record for the id, a failing read
  of the cache, or of the job store, is answered 500 and not 404; and a failing read of
  the cache is answered 500 although an entry exists.
\<close>

theorem get_results_counterexample:
  "redis example_world (result_key ''j4'') = None
   \<and> jobQueue example_world (job_key ''j4'') = None
   \<and> get_results example_parse (Some ''Connection is closed.'') None example_world ''j4''
       = ResultsError ''Connection is closed.''
   \<and> get_results example_parse None (Some ''Connection is closed.'') example_world ''j4''
       = ResultsError ''Connection is closed.''
   \<and> redis example_world (result_key ''j1'') = Some ''{}''
   \<and> get_results example_parse (Some ''Connection is closed.'') None example_world ''j1''
       = ResultsError ''Connection is closed.''"
  by (simp add: get_results_def hgetall_def truthy_def example_world_def result_key_def
      job_key_def)

text \<open>
  C8, amended. For every result fetch: when the read of the cache fails the answer is
  500; when the cache holds a non-empty entry for the job id the answer is the parsed
  entry, 500 if it does not parse; otherwise, when the read of the job record fails the
  answer is 500; when the job record exists with status \<^verbatim>\<open>completed\<close> the answer is the
  parsed embedded result, 500 if it does not parse (a missing result field is parsed as
  the text \<^verbatim>\<open>undefined\<close>); in every other case, the job being unknown or not completed, the
  answer is 404.
\<close>

theorem get_results_amended:
  "get_results parse (Some m) hgetall_err w jobId = ResultsError m
   \<and> (redis w (result_key jobId) = Some s \<and> s \<noteq> [] \<and> parse s = Inr r
      \<longrightarrow> get_results parse None hgetall_err w jobId = ResultsJson r)
   \<and> (redis w (result_key jobId) = Some s \<and> s \<noteq> [] \<and> parse s = Inl m
      \<longrightarrow> get_results parse None hgetall_err w jobId = ResultsError m)
   \<and> (\<not> truthy (redis w (result_key jobId))
      \<longrightarrow> get_results parse None (Some m) w jobId = ResultsError m)
   \<and> (\<not> truthy (redis w (result_key jobId)) \<and> jobQueue w (job_key jobId) = Some h
        \<and> h ''status'' = Some ''completed'' \<and> h ''result'' = Some s \<and> parse s = Inr r
      \<longrightarrow> get_results parse None None w jobId = ResultsJson r)
   \<and> (\<not> truthy (redis w (result_key jobId)) \<and> jobQueue w (job_key jobId) = Some h
        \<and> h ''status'' = Some ''completed'' \<and> h ''result'' = Some s \<and> parse s = Inl m
      \<longrightarrow> get_results parse None None w jobId = ResultsError m)
   \<and> (\<not> truthy (redis w (result_key jobId)) \<and> jobQueue w (job_key jobId) = Some h
        \<and> h ''status'' = Some ''completed'' \<and> h ''result'' = None
      \<longrightarrow> get_results parse None None w jobId
            = (case parse ''undefined'' of Inl m \<Rightarrow> ResultsError m | Inr r \<Rightarrow> ResultsJson r))
   \<and> (\<not> truthy (redis w (result_key jobId))
        \<and> (jobQueue w (job_key jobId) = None
            \<or> (jobQueue w (job_key jobId) = Some h \<and> h ''status'' \<noteq> Some ''completed''))
      \<longrightarrow> get_results parse None None w jobId = ResultsNotFound ''Results not found'')"
  by (auto simp: get_results_def hgetall_def truthy_def)

theorem get_results_amended_witness:
  "redis example_world (result_key ''j1'') = Some ''{}''
   \<and> get_results example_parse None None example_world ''j1'' = ResultsJson 0
   \<and> \<not> truthy (redis example_world (result_key ''j2''))
   \<and> get_results example_parse None None example_world ''j2'' = ResultsJson 0
   \<and> \<not> truthy (redis example_world (result_key ''j3''))
   \<and> get_results example_parse None None example_world ''j3'' = ResultsNotFound ''Results not found''
   \<and> jobQueue example_world (job_key ''j4'') = None
   \<and> get_results example_parse None None example_world ''j4'' = ResultsNotFound ''Results not found''
   \<and> get_results example_parse None (Some ''Connection is closed.'') example_world ''j4''
       = ResultsError ''Connection is closed.''"
proof -
  have c: "redis example_world (result_key ''j1'') = Some ''{}''"
    "\<not> truthy (redis example_world (result_key ''j2''))"
    "\<not> truthy (redis example_world (result_key ''j3''))"
    "\<not> truthy (redis example_world (result_key ''j4''))"
    by (simp_all add: example_world_def result_key_def truthy_def)
  have j: "jobQueue example_world (job_key ''j2'')
        = Some [''status'' \<mapsto> ''completed'', ''result'' \<mapsto> ''{}'']"
    "jobQueue example_world (job_key ''j3'') = Some [''status'' \<mapsto> ''pending'']"
    "jobQueue example_world (job_key ''j4'') = None"
    by (simp_all add: example_world_def job_key_def)
  have p: "example_parse ''{}'' = Inr 0"
    by (simp add: example_parse_def)
  have 1: "get_results example_parse None None example_world ''j1'' = ResultsJson 0"
    using get_results_amended [where w = example_world and jobId = "''j1''" and s = "''{}''"
      and parse = example_parse and r = 0 and hgetall_err = None] c p
    by simp
  have 2: "get_results example_parse None None example_world ''j2'' = ResultsJson 0"
    using get_results_amended [where w = example_world and jobId = "''j2''" and s = "''{}''"
      and parse = example_parse and r = 0
      and h = "[''status'' \<mapsto> ''completed'', ''result'' \<mapsto> ''{}'']"] c j p
    by simp
  have 3: "get_results example_parse None None example_world ''j3''
        = ResultsNotFound ''Results not found''"
    using get_results_amended [where w = example_world and jobId = "''j3''"
      and parse = example_parse and h = "[''status'' \<mapsto> ''pending'']"] c j
    by simp
  have 4: "get_results example_parse None None example_world ''j4''
        = ResultsNotFound ''Results not found''"
    using get_results_amended [where w = example_world and jobId = "''j4''"
      and parse = example_parse] c j
    by simp
  have 5: "get_results example_parse None (Some ''Connection is closed.'') example_world ''j4''
       = ResultsError ''Connection is closed.''"
    using get_results_amended [where w = example_world and jobId = "''j4''"
      and parse = example_parse and m = "''Connection is closed.''"] c
    by simp
  from c j 1 2 3 4 5 show ?thesis by simp
qed

section \<open>Search filter of the presentation layer\<close>

text \<open>
  \<^verbatim>\<open>filteredFiles\<close> of the inspector component. The file list is the tree the server
  returned, parsed from JSON: no two nodes share a child. \<^verbatim>\<open>filterNodes\<close> assigns to
  \<^verbatim>\<open>node.children\<close> inside the callback of \<^verbatim>\<open>filter\<close>, so each function returns, with its
  value, the nodes it was given as they are after the call. \<^verbatim>\<open>toLowerCase\<close> is modelled on
  the ASCII letters.
\<close>

definition toLowerCase_char :: "char \<Rightarrow> char" where
  "toLowerCase_char c =
     (case map_of (zip ''ABCDEFGHIJKLMNOPQRSTUVWXYZ'' ''abcdefghijklmnopqrstuvwxyz'') c of
        None \<Rightarrow> c | Some l \<Rightarrow> l)"

definition toLowerCase :: "string \<Rightarrow> string" where
  "toLowerCase s = map toLowerCase_char s"

fun includes' :: "string \<Rightarrow> string \<Rightarrow> bool" where
  "includes' [] t = (t = [])"
| "includes' (c # cs) t = (take (length t) (c # cs) = t \<or> includes' cs t)"

text \<open>
  \<open>filterNode\<close> is the callback: the node after the call, and whether it is kept.
  \<open>filterNodes\<close> returns the given nodes after the call and the filtered array.
\<close>

fun filterNode :: "string \<Rightarrow> FileNode \<Rightarrow> FileNode \<times> bool"
  and filterNodes :: "string \<Rightarrow> FileNode list \<Rightarrow> FileNode list \<times> FileNode list" where
  "filterNode searchLower (FileNode n p s t m cs) =
     (let matches = includes' (toLowerCase n) searchLower in
      case cs of
        None \<Rightarrow> (FileNode n p s t m None, matches)
      | Some children' \<Rightarrow>
          (case filterNodes searchLower children' of
             (children_after, kept) \<Rightarrow>
               (FileNode n p s t m (Some kept), matches \<or> length kept > 0)))"
| "filterNodes searchLower [] = ([], [])"
| "filterNodes searchLower (node # nodes) =
     (case filterNode searchLower node of
        (node', keep) \<Rightarrow>
          (case filterNodes searchLower nodes of
             (nodes', result) \<Rightarrow> (node' # nodes', if keep then node' # result else result)))"

text \<open>
  The memoized value for the file list of the inspection data (\<open>None\<close> when there is
  none) and the search term: the file list after the call, and the list shown.
\<close>

definition filteredFiles ::
  "FileNode list option \<Rightarrow> string \<Rightarrow> FileNode list option \<times> FileNode list" where
  "filteredFiles files searchTerm =
     (case files of
        None \<Rightarrow> (None, [])
      | Some fs \<Rightarrow>
          if searchTerm = [] then (files, fs)
          else (case filterNodes (toLowerCase searchTerm) fs of
                  (fs', result) \<Rightarrow> (Some fs', result)))"

definition example_files :: "FileNode list" where
  "example_files =
     [example_node ''src'' ''/src'' ''directory''
        (Some [example_node ''Main.js'' ''/src/Main.js'' ''file'' None,
               example_node ''readme.md'' ''/src/readme.md'' ''file'' None])]"

lemma filteredFiles_no_term: "filteredFiles (Some fs) [] = (Some fs, fs)"
  by (simp add: filteredFiles_def)

lemma filterNodes_length: "length (fst (filterNodes searchLower nodes)) = length nodes"
  by (induction nodes) (auto split: prod.splits)

text \<open>
  C9. The filter is to leave the original tree unchanged. Searching \<^verbatim>\<open>main\<close> in a tree
  with the directory \<^verbatim>\<open>src\<close> holding \<^verbatim>\<open>Main.js\<close> and \<^verbatim>\<open>readme.md\<close> returns \<^verbatim>\<open>src\<close> with
  \<^verbatim>\<open>Main.js\<close> alone, and the node \<^verbatim>\<open>src\<close> of the original list has lost \<^verbatim>\<open>readme.md\<close>.
\<close>

theorem filteredFiles_mutates_original:
  "filteredFiles (Some example_files) ''main''
     = (Some [example_node ''src'' ''/src'' ''directory''
                (Some [example_node ''Main.js'' ''/src/Main.js'' ''file'' None])],
        [example_node ''src'' ''/src'' ''directory''
                (Some [example_node ''Main.js'' ''/src/Main.js'' ''file'' None])])
   \<and> fst (filteredFiles (Some example_files) ''main'') \<noteq> Some example_files"
  by (simp add: filteredFiles_def example_files_def example_node_def toLowerCase_def
      toLowerCase_char_def)

end
